theory Spec2Isabelle
  imports Main "HOL-Library.Char_ord" "HOL-Library.List_Lexorder" "HOL-Library.Multiset"
begin

section \<open>Errors\<close>

text \<open>
  The Python code raises three kinds of exception: \<open>ValueError\<close> (every failure of the
  hours grammar, and an out-of-range weekday), \<open>RuntimeError\<close> (service not loaded) and the
  \<open>csv\<close> module's own \<open>Error\<close> (raised by the reader of the standard library). Each
  carries its message.
\<close>

datatype py_error = ValueError string | RuntimeError string | CsvError string

section \<open>models.py\<close>

text \<open>
  \<open>datetime.time\<close>: hour, minute, second, microsecond. Naive times are ordered
  lexicographically on these four fields. The constructor \<open>time(hour, minute)\<close> raises
  \<open>ValueError\<close> unless \<open>0 \<le> hour \<le> 23\<close> and \<open>0 \<le> minute \<le> 59\<close>.
\<close>

record time =
  hour :: nat
  minute :: nat
  second :: nat
  microsecond :: nat

definition time_key :: "time \<Rightarrow> nat \<times> nat \<times> nat \<times> nat" where
  "time_key t = (hour t, minute t, second t, microsecond t)"

fun key_le :: "nat \<times> nat \<times> nat \<times> nat \<Rightarrow> nat \<times> nat \<times> nat \<times> nat \<Rightarrow> bool" where
  "key_le (h1, m1, s1, u1) (h2, m2, s2, u2) =
     (h1 < h2 \<or> (h1 = h2 \<and> (m1 < m2 \<or> (m1 = m2 \<and> (s1 < s2 \<or> (s1 = s2 \<and> u1 \<le> u2))))))"

definition time_le :: "time \<Rightarrow> time \<Rightarrow> bool" where
  "time_le a b = key_le (time_key a) (time_key b)"

definition time_lt :: "time \<Rightarrow> time \<Rightarrow> bool" where
  "time_lt a b = (time_le a b \<and> time_key a \<noteq> time_key b)"

definition mk_time :: "nat \<Rightarrow> nat \<Rightarrow> time" where
  "mk_time h m = \<lparr>hour = h, minute = m, second = 0, microsecond = 0\<rparr>"

record TimeRange =
  start :: time
  end_t :: time

definition contains_time :: "TimeRange \<Rightarrow> time \<Rightarrow> bool" where
  "contains_time r check_time =
     (if time_le (start r) (end_t r)
      then time_le (start r) check_time \<and> time_le check_time (end_t r)
      else time_le (start r) check_time \<or> time_le check_time (end_t r))"

record DaySchedule =
  time_ranges :: "TimeRange list"

definition is_open_at_time :: "DaySchedule \<Rightarrow> time \<Rightarrow> bool" where
  "is_open_at_time d check_time = list_ex (\<lambda>r. contains_time r check_time) (time_ranges d)"

section \<open>Python string primitives\<close>

definition is_space :: "char \<Rightarrow> bool" where
  "is_space c = ((of_char c :: nat) \<in> {9, 10, 11, 12, 13, 28, 29, 30, 31, 32, 133, 160})"

definition is_digit :: "char \<Rightarrow> bool" where
  "is_digit c = (48 \<le> (of_char c :: nat) \<and> (of_char c :: nat) \<le> 57)"

definition py_lower :: "char \<Rightarrow> char" where
  "py_lower c =
     (let n = (of_char c :: nat)
      in if (65 \<le> n \<and> n \<le> 90) \<or> (192 \<le> n \<and> n \<le> 222 \<and> n \<noteq> 215)
         then char_of (n + 32) else c)"

definition lower :: "string \<Rightarrow> string" where
  "lower s = map py_lower s"

definition strip :: "string \<Rightarrow> string" where
  "strip s = rev (dropWhile is_space (rev (dropWhile is_space s)))"

fun split_max :: "char \<Rightarrow> nat \<Rightarrow> string \<Rightarrow> string list" where
  "split_max c 0 s = [s]"
| "split_max c (Suc n) s =
     (if c \<in> set s
      then takeWhile (\<lambda>x. x \<noteq> c) s # split_max c n (tl (dropWhile (\<lambda>x. x \<noteq> c) s))
      else [s])"

definition split_all :: "char \<Rightarrow> string \<Rightarrow> string list" where
  "split_all c s = split_max c (length s) s"

definition rsplit :: "char \<Rightarrow> nat \<Rightarrow> string \<Rightarrow> string list" where
  "rsplit c n s = rev (map rev (split_max c n (rev s)))"

fun join :: "string \<Rightarrow> string list \<Rightarrow> string" where
  "join sep [] = []"
| "join sep [x] = x"
| "join sep (x # y # ys) = x @ sep @ join sep (y # ys)"

definition int_of_digits :: "string \<Rightarrow> nat" where
  "int_of_digits ds = foldl (\<lambda>a c. 10 * a + ((of_char c :: nat) - 48)) 0 ds"

section \<open>parsers.py\<close>

definition time_pattern_match :: "bool \<Rightarrow> string \<Rightarrow> (string \<times> string option \<times> string) option" where
  "time_pattern_match ignorecase s =
     (let g1 = takeWhile is_digit (take 2 s) in
      if g1 = [] then None
      else
        let r1 = drop (length g1) s;
            (g2, r2) = (case r1 of
                          c # a # b # r \<Rightarrow>
                            if c = CHR '':'' \<and> is_digit a \<and> is_digit b then (Some [a, b], r)
                            else (None, r1)
                        | _ \<Rightarrow> (None, r1));
            g3 = take 2 (dropWhile is_space r2)
        in if (if ignorecase then lower g3 else g3) \<in> {''am'', ''pm''}
           then Some (g1, g2, g3) else None)"

definition parse_time_string :: "string \<Rightarrow> py_error + time" where
  "parse_time_string time_str0 =
     (let time_str = lower (strip time_str0) in
      if time_str \<in> {''12 am'', ''12:00 am''} then Inr (mk_time 0 0)
      else if time_str \<in> {''12 pm'', ''12:00 pm''} then Inr (mk_time 12 0)
      else
        case time_pattern_match False time_str of
          None \<Rightarrow> Inl (ValueError (''Cannot parse time string: '' @ time_str))
        | Some (g1, g2, am_pm) \<Rightarrow>
            let hour0 = int_of_digits g1;
                minute = (case g2 of Some d \<Rightarrow> int_of_digits d | None \<Rightarrow> 0);
                hour = (if am_pm = ''pm'' \<and> hour0 \<noteq> 12 then hour0 + 12
                        else if am_pm = ''am'' \<and> hour0 = 12 then 0
                        else hour0)
            in if hour \<le> 23 \<and> minute \<le> 59 then Inr (mk_time hour minute)
               else Inl (ValueError (''Invalid time: '' @ time_str)))"

definition day_mapping :: "string \<Rightarrow> int option" where
  "day_mapping = map_of
     [(''mon'', 0), (''tue'', 1), (''tues'', 1), (''wed'', 2), (''thu'', 3), (''thurs'', 3),
      (''fri'', 4), (''sat'', 5), (''sun'', 6)]"

definition unpack_error :: py_error where
  "unpack_error = ValueError ''not enough values to unpack (expected 2, got 1)''"

definition days_of_part :: "string \<Rightarrow> py_error + int list" where
  "days_of_part part0 =
     (let part = strip part0 in
      if CHR ''-'' \<in> set part then
        (case split_max CHR ''-'' 1 part of
           [s0, e0] \<Rightarrow>
             (let start_day = strip s0; end_day = strip e0 in
              case (day_mapping start_day, day_mapping end_day) of
                (Some start_idx, Some end_idx) \<Rightarrow>
                  if start_idx \<le> end_idx then Inr [start_idx..end_idx]
                  else Inr ([start_idx..6] @ [0..end_idx])
              | _ \<Rightarrow> Inl (ValueError (''Unknown day in range: '' @ part)))
         | _ \<Rightarrow> Inl unpack_error)
      else
        (case day_mapping part of
           None \<Rightarrow> Inl (ValueError (''Unknown day: '' @ part))
         | Some d \<Rightarrow> Inr [d]))"

fun day_loop :: "string list \<Rightarrow> int list \<Rightarrow> py_error + int list" where
  "day_loop [] days = Inr days"
| "day_loop (part # parts) days =
     (case days_of_part part of
        Inl e \<Rightarrow> Inl e
      | Inr ds \<Rightarrow> day_loop parts (days @ ds))"

definition parse_day_range :: "string \<Rightarrow> py_error + int list" where
  "parse_day_range day_str =
     (case day_loop (split_all CHR '','' (lower (strip day_str))) [] of
        Inl e \<Rightarrow> Inl e
      | Inr days \<Rightarrow> Inr (sort (remdups days)))"

definition parse_time_range :: "string \<Rightarrow> py_error + TimeRange" where
  "parse_time_range time_range_str =
     (if CHR ''-'' \<notin> set time_range_str
      then Inl (ValueError (''No time range separator found: '' @ time_range_str))
      else
        case split_max CHR ''-'' 1 time_range_str of
          [start_str, end_str] \<Rightarrow>
            (case parse_time_string (strip start_str) of
               Inl e \<Rightarrow> Inl e
             | Inr start_time \<Rightarrow>
                 (case parse_time_string (strip end_str) of
                    Inl e \<Rightarrow> Inl e
                  | Inr end_time \<Rightarrow> Inr \<lparr>start = start_time, end_t = end_time\<rparr>))
        | _ \<Rightarrow> Inl unpack_error)"

fun re_search_time :: "string \<Rightarrow> nat option" where
  "re_search_time [] = None"
| "re_search_time (c # cs) =
     (if time_pattern_match True (c # cs) \<noteq> None then Some 0
      else map_option Suc (re_search_time cs))"

definition parse_days_and_times :: "string \<Rightarrow> string \<Rightarrow> py_error + (int list \<times> TimeRange)" where
  "parse_days_and_times days_part time_range_part =
     (case parse_day_range days_part of
        Inl e \<Rightarrow> Inl e
      | Inr days \<Rightarrow>
          (case parse_time_range time_range_part of
             Inl e \<Rightarrow> Inl e
           | Inr time_range \<Rightarrow> Inr (days, time_range)))"

definition primary_split :: "string \<Rightarrow> py_error + (int list \<times> TimeRange)" where
  "primary_split period =
     (let parts = rsplit CHR '' '' 3 period;
          days_part = join '' '' (take (length parts - 3) parts);
          time_range_part = join '' '' (drop (length parts - 3) parts)
      in parse_days_and_times days_part time_range_part)"

definition fallback_split :: "string \<Rightarrow> py_error + (int list \<times> TimeRange)" where
  "fallback_split period =
     (case re_search_time period of
        None \<Rightarrow> Inl (ValueError (''Cannot find time in period: '' @ period))
      | Some time_start_pos \<Rightarrow>
          parse_days_and_times (strip (take time_start_pos period))
                               (strip (drop time_start_pos period)))"

definition parse_period :: "string \<Rightarrow> py_error + (int list \<times> TimeRange)" where
  "parse_period period =
     (if length (rsplit CHR '' '' 3 period) < 4
      then Inl (ValueError (''Cannot parse time period: '' @ period))
      else
        case primary_split period of
          Inr r \<Rightarrow> Inr r
        | Inl (ValueError _) \<Rightarrow> fallback_split period
        | Inl e \<Rightarrow> Inl e)"

type_synonym schedule = "(int \<times> DaySchedule) list"

fun append_range :: "TimeRange \<Rightarrow> int \<Rightarrow> schedule \<Rightarrow> schedule" where
  "append_range r day [] = [(day, \<lparr>time_ranges = [r]\<rparr>)]"
| "append_range r day ((k, d) # rest) =
     (if k = day then (k, d\<lparr>time_ranges := time_ranges d @ [r]\<rparr>) # rest
      else (k, d) # append_range r day rest)"

fun hours_loop :: "string list \<Rightarrow> schedule \<Rightarrow> py_error + schedule" where
  "hours_loop [] sched = Inr sched"
| "hours_loop (p # ps) sched =
     (let period = strip p in
      if period = [] then hours_loop ps sched
      else
        case parse_period period of
          Inl e \<Rightarrow> Inl e
        | Inr (days, time_range) \<Rightarrow>
            hours_loop ps (foldl (\<lambda>s day. append_range time_range day s) sched days))"

definition parse_restaurant_hours :: "string \<Rightarrow> py_error + schedule" where
  "parse_restaurant_hours hours_str =
     hours_loop (map strip (split_all CHR ''/'' hours_str)) []"

section \<open>Specification-level notions for the day list\<close>

text \<open>
  A segment of a day list is either "A-B" or a single token; it is well formed when its
  tokens are in the day table, and it denotes the set of days the claim describes.
\<close>

definition segment_tokens :: "string \<Rightarrow> string \<times> string option" where
  "segment_tokens part0 =
     (let part = strip part0 in
      if CHR ''-'' \<in> set part
      then (strip (takeWhile (\<lambda>x. x \<noteq> CHR ''-'') part),
            Some (strip (tl (dropWhile (\<lambda>x. x \<noteq> CHR ''-'') part))))
      else (part, None))"

definition well_formed_segment :: "string \<Rightarrow> bool" where
  "well_formed_segment part =
     (case segment_tokens part of
        (a, None) \<Rightarrow> day_mapping a \<noteq> None
      | (a, Some b) \<Rightarrow> day_mapping a \<noteq> None \<and> day_mapping b \<noteq> None)"

definition segment_days :: "string \<Rightarrow> int set" where
  "segment_days part =
     (case segment_tokens part of
        (a, None) \<Rightarrow> (case day_mapping a of Some i \<Rightarrow> {i} | None \<Rightarrow> {})
      | (a, Some b) \<Rightarrow>
          (case (day_mapping a, day_mapping b) of
             (Some i, Some j) \<Rightarrow> if i \<le> j then {i..j} else {i..6} \<union> {0..j}
           | _ \<Rightarrow> {}))"

definition is_unknown_day_error :: "py_error \<Rightarrow> bool" where
  "is_unknown_day_error e = (case e of ValueError m \<Rightarrow> take 11 m = ''Unknown day'' | _ \<Rightarrow> False)"

definition schedule_ok :: "schedule \<Rightarrow> bool" where
  "schedule_ok sched =
     list_all (\<lambda>(k, d). 0 \<le> k \<and> k \<le> 6 \<and> time_ranges d \<noteq> []) sched"

section \<open>Specification-level notions for the time pattern\<close>

text \<open>
  The regular expression \<^verbatim>\<open>(\d{1,2})(?::(\d{2}))?\s*(am|pm)\<close>, read as a language: a prefix
  of the text is one or two digits, optionally a colon and exactly two digits, any white space,
  then "am" or "pm". \<open>time_pattern_prefix s g1 g2 g3\<close> says that some prefix of \<open>s\<close> is in the
  language, with the three groups as given.
\<close>

definition time_pattern_prefix :: "string \<Rightarrow> string \<Rightarrow> string option \<Rightarrow> string \<Rightarrow> bool" where
  "time_pattern_prefix s g1 g2 g3 =
     (\<exists>ws rest.
        s = g1 @ (case g2 of None \<Rightarrow> [] | Some d \<Rightarrow> CHR '':'' # d) @ ws @ g3 @ rest \<and>
        g1 \<noteq> [] \<and> length g1 \<le> 2 \<and> list_all is_digit g1 \<and>
        (case g2 of None \<Rightarrow> True | Some d \<Rightarrow> length d = 2 \<and> list_all is_digit d) \<and>
        list_all is_space ws \<and> g3 \<in> {''am'', ''pm''})"

definition to_24_hour :: "nat \<Rightarrow> string \<Rightarrow> nat" where
  "to_24_hour h am_pm =
     (if am_pm = ''pm'' \<and> h \<noteq> 12 then h + 12 else if am_pm = ''am'' \<and> h = 12 then 0 else h)"

definition minute_of :: "string option \<Rightarrow> nat" where
  "minute_of g2 = (case g2 of Some d \<Rightarrow> int_of_digits d | None \<Rightarrow> 0)"

section \<open>The csv reader of the standard library\<close>

text \<open>
  \<open>csv.reader(StringIO(csv_content))\<close> with the default dialect (delimiter \<open>,\<close>, quote
  character \<open>"\<close>, doubled quotes, no escape character, not strict). \<open>StringIO\<close> yields the
  lines of the text, each with its terminating line feed; a carriage return does not end a
  line. The reader is the state machine of CPython's \<^verbatim>\<open>Modules/_csv.c\<close>
  (\<^verbatim>\<open>parse_process_char\<close>, \<^verbatim>\<open>Reader_iternext\<close>); the states for the escape character do not
  occur. The pseudo character at the end of each line is \<open>None\<close>.
\<close>

definition LF :: char where "LF = CHR 0x0A"
definition CR :: char where "CR = CHR 0x0D"

fun add_newlines :: "string list \<Rightarrow> string list" where
  "add_newlines [] = []"
| "add_newlines [x] = (if x = [] then [] else [x])"
| "add_newlines (x # y # ys) = (x @ [LF]) # add_newlines (y # ys)"

definition readlines :: "string \<Rightarrow> string list" where
  "readlines s = add_newlines (split_all LF s)"

datatype csv_state =
  START_RECORD | START_FIELD | IN_FIELD | IN_QUOTED_FIELD | QUOTE_IN_QUOTED_FIELD | EAT_CRNL

record reader =
  state :: csv_state
  row_fields :: "string list"
  cur_field :: string

definition field_limit :: int where
  "field_limit = 131072"

definition parse_reset :: reader where
  "parse_reset = \<lparr>state = START_RECORD, row_fields = [], cur_field = []\<rparr>"

definition parse_add_char :: "reader \<Rightarrow> char \<Rightarrow> py_error + reader" where
  "parse_add_char r c =
     (if int (length (cur_field r)) \<ge> field_limit
      then Inl (CsvError ''field larger than field limit (131072)'')
      else Inr (r\<lparr>cur_field := cur_field r @ [c]\<rparr>))"

definition parse_save_field :: "reader \<Rightarrow> reader" where
  "parse_save_field r = r\<lparr>row_fields := row_fields r @ [cur_field r], cur_field := []\<rparr>"

definition is_line_end :: "char option \<Rightarrow> bool" where
  "is_line_end c = (c = Some LF \<or> c = Some CR \<or> c = None)"

definition end_of_record :: "reader \<Rightarrow> char option \<Rightarrow> reader" where
  "end_of_record r c =
     (parse_save_field r)\<lparr>state := (if c = None then START_RECORD else EAT_CRNL)\<rparr>"

definition start_field :: "reader \<Rightarrow> char option \<Rightarrow> py_error + reader" where
  "start_field r c =
     (if is_line_end c then Inr (end_of_record r c)
      else if c = Some CHR 0x22 then Inr (r\<lparr>state := IN_QUOTED_FIELD\<rparr>)
      else if c = Some CHR '','' then Inr (parse_save_field r)
      else case parse_add_char r (the c) of
             Inl e \<Rightarrow> Inl e
           | Inr r' \<Rightarrow> Inr (r'\<lparr>state := IN_FIELD\<rparr>))"

definition parse_process_char :: "reader \<Rightarrow> char option \<Rightarrow> py_error + reader" where
  "parse_process_char r c =
     (case state r of
        START_RECORD \<Rightarrow>
          if c = None then Inr r
          else if c = Some LF \<or> c = Some CR then Inr (r\<lparr>state := EAT_CRNL\<rparr>)
          else start_field (r\<lparr>state := START_FIELD\<rparr>) c
      | START_FIELD \<Rightarrow> start_field r c
      | IN_FIELD \<Rightarrow>
          if is_line_end c then Inr (end_of_record r c)
          else if c = Some CHR '','' then Inr ((parse_save_field r)\<lparr>state := START_FIELD\<rparr>)
          else parse_add_char r (the c)
      | IN_QUOTED_FIELD \<Rightarrow>
          if c = None then Inr r
          else if c = Some CHR 0x22 then Inr (r\<lparr>state := QUOTE_IN_QUOTED_FIELD\<rparr>)
          else parse_add_char r (the c)
      | QUOTE_IN_QUOTED_FIELD \<Rightarrow>
          if c = Some CHR 0x22 then
            (case parse_add_char r CHR 0x22 of
               Inl e \<Rightarrow> Inl e
             | Inr r' \<Rightarrow> Inr (r'\<lparr>state := IN_QUOTED_FIELD\<rparr>))
          else if c = Some CHR '','' then Inr ((parse_save_field r)\<lparr>state := START_FIELD\<rparr>)
          else if is_line_end c then Inr (end_of_record r c)
          else
            (case parse_add_char r (the c) of
               Inl e \<Rightarrow> Inl e
             | Inr r' \<Rightarrow> Inr (r'\<lparr>state := IN_FIELD\<rparr>))
      | EAT_CRNL \<Rightarrow>
          if c = Some LF \<or> c = Some CR then Inr r
          else if c = None then Inr (r\<lparr>state := START_RECORD\<rparr>)
          else Inl (CsvError
            (''new-line character seen in unquoted field - do you need to open the file with newline=''
             @ [CHR 0x27, CHR 0x27] @ ''?'')))"

fun process_line :: "reader \<Rightarrow> string \<Rightarrow> py_error + reader" where
  "process_line r [] = parse_process_char r None"
| "process_line r (c # cs) =
     (case parse_process_char r (Some c) of
        Inl e \<Rightarrow> Inl e
      | Inr r' \<Rightarrow> process_line r' cs)"

text \<open>
  All records of the reader, in order, and the error (if any) that the iterator raises when it
  is advanced past the last of them.
\<close>

fun reader_loop :: "reader \<Rightarrow> string list \<Rightarrow> string list list \<times> py_error option" where
  "reader_loop r [] =
     (if cur_field r \<noteq> [] \<or> state r = IN_QUOTED_FIELD
      then ([row_fields (parse_save_field r)], None)
      else ([], None))"
| "reader_loop r (l # ls) =
     (case process_line r l of
        Inl e \<Rightarrow> ([], Some e)
      | Inr r' \<Rightarrow>
          if state r' \<noteq> START_RECORD then reader_loop r' ls
          else (let (rows, err) = reader_loop parse_reset ls in (row_fields r' # rows, err)))"

definition csv_reader :: "string \<Rightarrow> string list list \<times> py_error option" where
  "csv_reader csv_content = reader_loop parse_reset (readlines csv_content)"

section \<open>parsers.py: the CSV record parser\<close>

record Restaurant =
  name :: string
  schedule :: schedule

text \<open>
  The loop over the data rows; \<open>err\<close> is the error the reader raises after the last row.
  The second component of the result is what the function prints.
\<close>

fun rows_loop ::
  "string list list \<Rightarrow> py_error option \<Rightarrow> Restaurant list \<Rightarrow> string list \<Rightarrow>
   (py_error + Restaurant list) \<times> string list" where
  "rows_loop [] err acc out =
     (case err of None \<Rightarrow> (Inr acc, out) | Some e \<Rightarrow> (Inl e, out))"
| "rows_loop (row # rows) err acc out =
     (case row of
        [nm, hours] \<Rightarrow>
          (case parse_restaurant_hours hours of
             Inr sched \<Rightarrow>
               rows_loop rows err (acc @ [\<lparr>name = nm, schedule = sched\<rparr>]) out
           | Inl (ValueError m) \<Rightarrow>
               rows_loop rows err acc
                 (out @ [''Warning: Could not parse hours for '' @ nm @ '': '' @ m])
           | Inl e \<Rightarrow> (Inl e, out))
      | _ \<Rightarrow> rows_loop rows err acc out)"

definition parse_restaurants_from_csv ::
  "string \<Rightarrow> (py_error + Restaurant list) \<times> string list" where
  "parse_restaurants_from_csv csv_content =
     (case csv_reader csv_content of
        ([], None) \<Rightarrow> (Inr [], [])
      | ([], Some e) \<Rightarrow> (Inl e, [])
      | (header # rows, err) \<Rightarrow> rows_loop rows err [] [])"

section \<open>services.py\<close>

text \<open>
  The service holds the list of restaurants and the loaded flag. Every method returns its
  result (or the exception it raises) together with the state it leaves. What the methods
  print is not part of the state. \<open>dateutil\<close>'s parser is a parameter \<open>date_parse\<close>, which
  gives \<open>None\<close> where the library raises; of the parsed \<open>datetime\<close> the code reads
  \<open>weekday()\<close> (always in 0..6) and \<open>time()\<close>.
\<close>

record RestaurantService =
  restaurants :: "Restaurant list"
  loaded :: bool

record datetime =
  weekday :: int
  time_of :: time

definition init_service :: RestaurantService where
  "init_service = \<lparr>restaurants = [], loaded = False\<rparr>"

definition is_open_at_datetime :: "Restaurant \<Rightarrow> datetime \<Rightarrow> bool" where
  "is_open_at_datetime r dt =
     (case map_of (schedule r) (weekday dt) of
        None \<Rightarrow> False
      | Some day_schedule \<Rightarrow> is_open_at_time day_schedule (time_of dt))"

definition load_restaurants_from_content ::
  "RestaurantService \<Rightarrow> string \<Rightarrow> (py_error + unit) \<times> RestaurantService" where
  "load_restaurants_from_content svc csv_content =
     (case fst (parse_restaurants_from_csv csv_content) of
        Inl e \<Rightarrow> (Inl e, svc)
      | Inr rs \<Rightarrow> (Inr (), svc\<lparr>restaurants := rs, loaded := True\<rparr>))"

definition get_restaurant_count :: "RestaurantService \<Rightarrow> int \<times> RestaurantService" where
  "get_restaurant_count svc = (int (length (restaurants svc)), svc)"

definition not_loaded_error :: py_error where
  "not_loaded_error =
     RuntimeError ''Restaurant data not loaded. Call load_restaurants_from_csv first.''"

definition find_open_restaurants ::
  "(string \<Rightarrow> datetime option) \<Rightarrow> RestaurantService \<Rightarrow> string \<Rightarrow>
   (py_error + string list) \<times> RestaurantService" where
  "find_open_restaurants date_parse svc datetime_str =
     (if \<not> loaded svc then (Inl not_loaded_error, svc)
      else
        case date_parse datetime_str of
          None \<Rightarrow> (Inl (ValueError (''Invalid datetime format: '' @ datetime_str)), svc)
        | Some query_datetime \<Rightarrow>
            (Inr (sort (map name
                (filter (\<lambda>r. is_open_at_datetime r query_datetime) (restaurants svc)))), svc))"

definition get_restaurants_open_on_day ::
  "RestaurantService \<Rightarrow> int \<Rightarrow> (py_error + string list) \<times> RestaurantService" where
  "get_restaurants_open_on_day svc wd =
     (if \<not> (0 \<le> wd \<and> wd \<le> 6)
      then (Inl (ValueError ''Weekday must be between 0 (Monday) and 6 (Sunday)''), svc)
      else if \<not> loaded svc then (Inl not_loaded_error, svc)
      else (Inr (sort (map name
              (filter (\<lambda>r. map_of (schedule r) wd \<noteq> None) (restaurants svc)))), svc))"

section \<open>Specification-level notions for the CSV record parser\<close>

text \<open>
  What one data record contributes: a restaurant when it has exactly two fields and its
  hours text parses, a warning line when it has two fields and the hours text does not parse,
  nothing otherwise.
\<close>

definition restaurant_of_row :: "string list \<Rightarrow> Restaurant option" where
  "restaurant_of_row row =
     (case row of
        [nm, hours] \<Rightarrow>
          (case parse_restaurant_hours hours of
             Inr sched \<Rightarrow> Some \<lparr>name = nm, schedule = sched\<rparr>
           | Inl e \<Rightarrow> None)
      | _ \<Rightarrow> None)"

definition warning_of_row :: "string list \<Rightarrow> string option" where
  "warning_of_row row =
     (case row of
        [nm, hours] \<Rightarrow>
          (case parse_restaurant_hours hours of
             Inr sched \<Rightarrow> None
           | Inl (ValueError m) \<Rightarrow> Some (''Warning: Could not parse hours for '' @ nm @ '': '' @ m)
           | Inl e \<Rightarrow> None)
      | _ \<Rightarrow> None)"

section \<open>Specification-level notions for the query engine\<close>

text \<open>
  A restaurant is open at (weekday, time) when the weekday is a key of its schedule and some
  range of that day's schedule contains the time.
\<close>

definition open_at :: "Restaurant \<Rightarrow> int \<Rightarrow> time \<Rightarrow> bool" where
  "open_at r wd t =
     (\<exists>d. map_of (schedule r) wd = Some d \<and> (\<exists>tr\<in>set (time_ranges d). contains_time tr t))"

section \<open>Properties of the models\<close>

lemma key_le_total: "key_le a b \<or> key_le b a"
  by (cases a; cases b) auto

lemma key_le_antisym: "key_le a b \<Longrightarrow> key_le b a \<Longrightarrow> a = b"
  by (cases a; cases b) auto

lemma key_le_refl: "key_le a a"
  by (cases a) auto

lemma time_lt_iff_not_le: "time_lt b a \<longleftrightarrow> \<not> time_le a b"
proof
  assume "time_lt b a"
  then have "key_le (time_key b) (time_key a)" and "time_key b \<noteq> time_key a"
    by (simp_all add: time_lt_def time_le_def)
  then show "\<not> time_le a b"
    unfolding time_le_def using key_le_antisym by blast
next
  assume "\<not> time_le a b"
  then have n: "\<not> key_le (time_key a) (time_key b)"
    by (simp add: time_le_def)
  then have "key_le (time_key b) (time_key a)"
    using key_le_total by blast
  moreover from n have "time_key b \<noteq> time_key a"
    using key_le_refl [of "time_key a"] by auto
  ultimately show "time_lt b a"
    by (simp add: time_lt_def time_le_def)
qed

text \<open>
  C3. For an overnight range (start later than end), \<open>contains_time\<close> holds iff the time is
  at or after the start, or at or before the end; for a range with start not later than end,
  iff the time lies in the closed interval. The range 23:00 to 02:00 contains 23:00, 00:00,
  01:00 and 02:00, and neither 22:00 nor 03:00.
\<close>

theorem contains_time_spec:
  "(time_lt (end_t r) (start r) \<longrightarrow>
      contains_time r t = (time_le (start r) t \<or> time_le t (end_t r))) \<and>
   (time_le (start r) (end_t r) \<longrightarrow>
      contains_time r t = (time_le (start r) t \<and> time_le t (end_t r))) \<and>
   (let night = \<lparr>start = mk_time 23 0, end_t = mk_time 2 0\<rparr> in
      contains_time night (mk_time 23 0) \<and> contains_time night (mk_time 0 0) \<and>
      contains_time night (mk_time 1 0) \<and> contains_time night (mk_time 2 0) \<and>
      \<not> contains_time night (mk_time 22 0) \<and> \<not> contains_time night (mk_time 3 0))"
proof (intro conjI impI)
  assume "time_lt (end_t r) (start r)"
  then have "\<not> time_le (start r) (end_t r)" by (simp add: time_lt_iff_not_le)
  then show "contains_time r t = (time_le (start r) t \<or> time_le t (end_t r))"
    by (simp add: contains_time_def)
next
  assume "time_le (start r) (end_t r)"
  then show "contains_time r t = (time_le (start r) t \<and> time_le t (end_t r))"
    by (simp add: contains_time_def)
next
  show "let night = \<lparr>start = mk_time 23 0, end_t = mk_time 2 0\<rparr> in
      contains_time night (mk_time 23 0) \<and> contains_time night (mk_time 0 0) \<and>
      contains_time night (mk_time 1 0) \<and> contains_time night (mk_time 2 0) \<and>
      \<not> contains_time night (mk_time 22 0) \<and> \<not> contains_time night (mk_time 3 0)"
    by (simp add: contains_time_def time_le_def time_key_def mk_time_def)
qed

theorem contains_time_spec_witness:
  "time_lt (end_t \<lparr>start = mk_time 17 0, end_t = mk_time 2 0\<rparr>)
           (start \<lparr>start = mk_time 17 0, end_t = mk_time 2 0\<rparr>) \<and>
   contains_time \<lparr>start = mk_time 17 0, end_t = mk_time 2 0\<rparr> (mk_time 1 30) \<and>
   time_le (start \<lparr>start = mk_time 9 0, end_t = mk_time 17 0\<rparr>)
           (end_t \<lparr>start = mk_time 9 0, end_t = mk_time 17 0\<rparr>) \<and>
   contains_time \<lparr>start = mk_time 9 0, end_t = mk_time 17 0\<rparr> (mk_time 17 0) \<and>
   \<not> contains_time \<lparr>start = mk_time 9 0, end_t = mk_time 17 0\<rparr> (mk_time 17 1)"
proof -
  have a: "time_lt (end_t \<lparr>start = mk_time 17 0, end_t = mk_time 2 0\<rparr>)
           (start \<lparr>start = mk_time 17 0, end_t = mk_time 2 0\<rparr>)"
    by (simp add: time_lt_def time_le_def time_key_def mk_time_def)
  have b: "time_le (start \<lparr>start = mk_time 9 0, end_t = mk_time 17 0\<rparr>)
           (end_t \<lparr>start = mk_time 9 0, end_t = mk_time 17 0\<rparr>)"
    by (simp add: time_le_def time_key_def mk_time_def)
  from a contains_time_spec [of "\<lparr>start = mk_time 17 0, end_t = mk_time 2 0\<rparr>" "mk_time 1 30"]
  have c: "contains_time \<lparr>start = mk_time 17 0, end_t = mk_time 2 0\<rparr> (mk_time 1 30)"
    by (simp add: time_le_def time_key_def mk_time_def)
  from b contains_time_spec [of "\<lparr>start = mk_time 9 0, end_t = mk_time 17 0\<rparr>" "mk_time 17 0"]
  have d: "contains_time \<lparr>start = mk_time 9 0, end_t = mk_time 17 0\<rparr> (mk_time 17 0)"
    by (simp add: time_le_def time_key_def mk_time_def)
  from b contains_time_spec [of "\<lparr>start = mk_time 9 0, end_t = mk_time 17 0\<rparr>" "mk_time 17 1"]
  have e: "\<not> contains_time \<lparr>start = mk_time 9 0, end_t = mk_time 17 0\<rparr> (mk_time 17 1)"
    by (simp add: time_le_def time_key_def mk_time_def)
  from a b c d e show ?thesis by blast
qed

section \<open>The hours grammar on the documented examples\<close>

text \<open>
  C1. For the input "Mon-Thu, Sun 11:30 am - 10 pm / Fri-Sat 11:30 am - 11 pm",
  \<open>parse_restaurant_hours\<close> returns a schedule whose keys are exactly the seven weekdays:
  days 0, 1, 2, 3 and 6 each hold the single range 11:30 to 22:00, days 4 and 5 each hold the
  single range 11:30 to 23:00. (The keys appear in insertion order, as in a Python dict.)
\<close>

theorem parse_restaurant_hours_two_periods:
  "parse_restaurant_hours ''Mon-Thu, Sun 11:30 am - 10 pm / Fri-Sat 11:30 am - 11 pm'' =
   Inr [(0, \<lparr>time_ranges = [\<lparr>start = mk_time 11 30, end_t = mk_time 22 0\<rparr>]\<rparr>),
        (1, \<lparr>time_ranges = [\<lparr>start = mk_time 11 30, end_t = mk_time 22 0\<rparr>]\<rparr>),
        (2, \<lparr>time_ranges = [\<lparr>start = mk_time 11 30, end_t = mk_time 22 0\<rparr>]\<rparr>),
        (3, \<lparr>time_ranges = [\<lparr>start = mk_time 11 30, end_t = mk_time 22 0\<rparr>]\<rparr>),
        (6, \<lparr>time_ranges = [\<lparr>start = mk_time 11 30, end_t = mk_time 22 0\<rparr>]\<rparr>),
        (4, \<lparr>time_ranges = [\<lparr>start = mk_time 11 30, end_t = mk_time 23 0\<rparr>]\<rparr>),
        (5, \<lparr>time_ranges = [\<lparr>start = mk_time 11 30, end_t = mk_time 23 0\<rparr>]\<rparr>)]"
  by code_simp

section \<open>The day-list parser\<close>

lemma split_max_one:
  "c \<in> set s \<Longrightarrow> split_max c 1 s = [takeWhile (\<lambda>x. x \<noteq> c) s, tl (dropWhile (\<lambda>x. x \<noteq> c) s)]"
  by simp

lemma days_of_part_well_formed:
  assumes "well_formed_segment part"
  shows "\<exists>ds. days_of_part part = Inr ds \<and> set ds = segment_days part"
  using assms
  by (auto simp: well_formed_segment_def segment_days_def segment_tokens_def days_of_part_def
        Let_def split_max_one split: if_splits option.splits)

lemma days_of_part_ill_formed:
  assumes "\<not> well_formed_segment part"
  shows "\<exists>e. days_of_part part = Inl e \<and> is_unknown_day_error e"
  using assms
  by (auto simp: well_formed_segment_def segment_tokens_def days_of_part_def
        is_unknown_day_error_def Let_def split_max_one split: if_splits option.splits)

lemma day_loop_well_formed:
  "list_all well_formed_segment parts \<Longrightarrow>
   \<exists>ds. day_loop parts acc = Inr ds \<and> set ds = set acc \<union> (\<Union>p\<in>set parts. segment_days p)"
proof (induction parts arbitrary: acc)
  case Nil
  then show ?case by simp
next
  case (Cons p ps)
  then obtain ds where ds: "days_of_part p = Inr ds" "set ds = segment_days p"
    using days_of_part_well_formed by force
  from Cons obtain r where "day_loop ps (acc @ ds) = Inr r"
    "set r = set (acc @ ds) \<union> (\<Union>p\<in>set ps. segment_days p)"
    by force
  with ds show ?case by auto
qed

lemma day_loop_ill_formed:
  "\<not> list_all well_formed_segment parts \<Longrightarrow>
   \<exists>e. day_loop parts acc = Inl e \<and> is_unknown_day_error e"
proof (induction parts arbitrary: acc)
  case Nil
  then show ?case by simp
next
  case (Cons p ps)
  show ?case
  proof (cases "well_formed_segment p")
    case True
    then obtain ds where ds: "days_of_part p = Inr ds"
      using days_of_part_well_formed by blast
    from True Cons.prems have "\<not> list_all well_formed_segment ps" by simp
    from Cons.IH [OF this, of "acc @ ds"] ds show ?thesis by simp
  next
    case False
    from days_of_part_ill_formed [OF this] show ?thesis by auto
  qed
qed

text \<open>
  C5. On a well-formed day list (every comma-separated segment is a table token, or two table
  tokens around the first '-'), \<open>parse_day_range\<close> returns the sorted duplicate-free union
  of the segments, where "A-B" with start index at most the end index denotes start..end and
  otherwise start..6 plus 0..end. "Mon-Fri" gives 0..4, "Sat-Mon" gives the set {5,6,0}. Any
  segment with a token outside the table makes the call fail with an unknown-day error.
\<close>

theorem parse_day_range_spec:
  "(list_all well_formed_segment (split_all CHR '','' (lower (strip s))) \<longrightarrow>
      (\<exists>ds. parse_day_range s = Inr ds \<and> sorted ds \<and> distinct ds \<and>
            set ds = (\<Union>p\<in>set (split_all CHR '','' (lower (strip s))). segment_days p))) \<and>
   (\<not> list_all well_formed_segment (split_all CHR '','' (lower (strip s))) \<longrightarrow>
      (\<exists>e. parse_day_range s = Inl e \<and> is_unknown_day_error e)) \<and>
   parse_day_range ''Mon-Fri'' = Inr [0, 1, 2, 3, 4] \<and>
   parse_day_range ''Sat-Mon'' = Inr [0, 5, 6] \<and>
   set [0, 5, 6] = {5, 6, 0 :: int}"
proof (intro conjI impI)
  assume "list_all well_formed_segment (split_all CHR '','' (lower (strip s)))"
  from day_loop_well_formed [OF this, of "[]"]
  show "\<exists>ds. parse_day_range s = Inr ds \<and> sorted ds \<and> distinct ds \<and>
            set ds = (\<Union>p\<in>set (split_all CHR '','' (lower (strip s))). segment_days p)"
    by (auto simp: parse_day_range_def)
next
  assume "\<not> list_all well_formed_segment (split_all CHR '','' (lower (strip s)))"
  from day_loop_ill_formed [OF this, of "[]"]
  show "\<exists>e. parse_day_range s = Inl e \<and> is_unknown_day_error e"
    by (auto simp: parse_day_range_def)
next
  show "parse_day_range ''Mon-Fri'' = Inr [0, 1, 2, 3, 4]" by code_simp
  show "parse_day_range ''Sat-Mon'' = Inr [0, 5, 6]" by code_simp
  show "set [0, 5, 6] = {5, 6, 0 :: int}" by auto
qed

theorem parse_day_range_spec_witness:
  "list_all well_formed_segment (split_all CHR '','' (lower (strip ''Mon-Thu, Sun''))) \<and>
   (\<exists>ds. parse_day_range ''Mon-Thu, Sun'' = Inr ds \<and> sorted ds \<and> distinct ds \<and>
         set ds = (\<Union>p\<in>set (split_all CHR '','' (lower (strip ''Mon-Thu, Sun''))). segment_days p)) \<and>
   \<not> list_all well_formed_segment (split_all CHR '','' (lower (strip ''Mon, Xyz''))) \<and>
   (\<exists>e. parse_day_range ''Mon, Xyz'' = Inl e \<and> is_unknown_day_error e)"
proof -
  have a: "list_all well_formed_segment (split_all CHR '','' (lower (strip ''Mon-Thu, Sun'')))"
    by code_simp
  have b: "\<not> list_all well_formed_segment (split_all CHR '','' (lower (strip ''Mon, Xyz'')))"
    by code_simp
  from a parse_day_range_spec [of "''Mon-Thu, Sun''"]
  have c: "\<exists>ds. parse_day_range ''Mon-Thu, Sun'' = Inr ds \<and> sorted ds \<and> distinct ds \<and>
         set ds = (\<Union>p\<in>set (split_all CHR '','' (lower (strip ''Mon-Thu, Sun''))). segment_days p)"
    by blast
  from b parse_day_range_spec [of "''Mon, Xyz''"]
  have d: "\<exists>e. parse_day_range ''Mon, Xyz'' = Inl e \<and> is_unknown_day_error e"
    by blast
  from a b c d show ?thesis by blast
qed

section \<open>The invariant of parsed schedules\<close>

lemma day_mapping_range: "day_mapping a = Some i \<Longrightarrow> 0 \<le> i \<and> i \<le> 6"
  by (auto simp: day_mapping_def split: if_splits)

lemma days_of_part_range:
  "days_of_part part = Inr ds \<Longrightarrow> \<forall>d\<in>set ds. 0 \<le> d \<and> d \<le> 6"
  by (auto simp: days_of_part_def Let_def split: if_splits list.splits option.splits
        dest: day_mapping_range; meson day_mapping_range order_trans)

lemma day_loop_range:
  "day_loop parts acc = Inr ds \<Longrightarrow> \<forall>d\<in>set acc. 0 \<le> d \<and> d \<le> 6 \<Longrightarrow>
   \<forall>d\<in>set ds. 0 \<le> d \<and> d \<le> 6"
proof (induction parts arbitrary: acc)
  case Nil
  then show ?case by simp
next
  case (Cons p ps)
  from Cons.prems(1) obtain ds' where p: "days_of_part p = Inr ds'"
    and rest: "day_loop ps (acc @ ds') = Inr ds"
    by (auto split: sum.splits)
  from days_of_part_range [OF p] Cons.prems(2)
  have "\<forall>d\<in>set (acc @ ds'). 0 \<le> d \<and> d \<le> 6" by auto
  from Cons.IH [OF rest this] show ?case .
qed

lemma parse_day_range_range:
  "parse_day_range s = Inr ds \<Longrightarrow> \<forall>d\<in>set ds. 0 \<le> d \<and> d \<le> 6"
proof -
  assume a: "parse_day_range s = Inr ds"
  then obtain days where l: "day_loop (split_all CHR '','' (lower (strip s))) [] = Inr days"
    and ds: "ds = sort (remdups days)"
    by (auto simp: parse_day_range_def split: sum.splits)
  from day_loop_range [OF l] have "\<forall>d\<in>set days. 0 \<le> d \<and> d \<le> 6" by simp
  with ds show ?thesis by simp
qed

lemma parse_days_and_times_range:
  "parse_days_and_times a b = Inr (ds, r) \<Longrightarrow> \<forall>d\<in>set ds. 0 \<le> d \<and> d \<le> 6"
  by (auto simp: parse_days_and_times_def split: sum.splits dest: parse_day_range_range)

lemma parse_period_range:
  "parse_period p = Inr (ds, r) \<Longrightarrow> \<forall>d\<in>set ds. 0 \<le> d \<and> d \<le> 6"
  unfolding parse_period_def primary_split_def fallback_split_def Let_def
  by (auto split: if_splits sum.splits py_error.splits option.splits
        dest: parse_days_and_times_range)

lemma append_range_ok:
  "schedule_ok sched \<Longrightarrow> 0 \<le> day \<Longrightarrow> day \<le> 6 \<Longrightarrow> schedule_ok (append_range r day sched)"
  by (induction sched) (auto simp: schedule_ok_def)

lemma foldl_append_range_ok:
  "schedule_ok sched \<Longrightarrow> \<forall>d\<in>set ds. 0 \<le> d \<and> d \<le> 6 \<Longrightarrow>
   schedule_ok (foldl (\<lambda>s day. append_range r day s) sched ds)"
  by (induction ds arbitrary: sched) (auto simp: append_range_ok)

lemma hours_loop_ok:
  "hours_loop ps sched = Inr res \<Longrightarrow> schedule_ok sched \<Longrightarrow> schedule_ok res"
proof (induction ps arbitrary: sched)
  case Nil
  then show ?case by simp
next
  case (Cons p ps)
  show ?case
  proof (cases "strip p = []")
    case True
    with Cons show ?thesis by simp
  next
    case False
    with Cons.prems(1) obtain ds r where pp: "parse_period (strip p) = Inr (ds, r)"
      and rest: "hours_loop ps (foldl (\<lambda>s day. append_range r day s) sched ds) = Inr res"
      by (auto simp: Let_def split: sum.splits)
    from foldl_append_range_ok [OF Cons.prems(2) parse_period_range [OF pp]]
    have "schedule_ok (foldl (\<lambda>s day. append_range r day s) sched ds)" .
    from Cons.IH [OF rest this] show ?thesis .
  qed
qed

text \<open>
  C10. Every schedule returned by \<open>parse_restaurant_hours\<close> has keys in 0..6 only, and every
  day schedule in it has a non-empty list of time ranges; so for a parsed schedule, a weekday
  key is present iff that day has at least one range.
\<close>

theorem parse_restaurant_hours_invariant:
  assumes "parse_restaurant_hours s = Inr sched"
  shows "schedule_ok sched \<and>
         (\<forall>k. (map_of sched k \<noteq> None) =
              (\<exists>d. map_of sched k = Some d \<and> time_ranges d \<noteq> []))"
proof -
  from assms have ok: "schedule_ok sched"
    unfolding parse_restaurant_hours_def
    by (rule hours_loop_ok) (simp add: schedule_ok_def)
  have "\<And>k d. map_of sched k = Some d \<Longrightarrow> time_ranges d \<noteq> []"
  proof -
    fix k d assume "map_of sched k = Some d"
    then have "(k, d) \<in> set sched" by (rule map_of_SomeD)
    with ok show "time_ranges d \<noteq> []"
      by (auto simp: schedule_ok_def list_all_iff)
  qed
  with ok show ?thesis by auto
qed

theorem parse_restaurant_hours_invariant_witness:
  "parse_restaurant_hours ''Mon-Wed 5 pm - 2 am'' =
     Inr [(0, \<lparr>time_ranges = [\<lparr>start = mk_time 17 0, end_t = mk_time 2 0\<rparr>]\<rparr>),
          (1, \<lparr>time_ranges = [\<lparr>start = mk_time 17 0, end_t = mk_time 2 0\<rparr>]\<rparr>),
          (2, \<lparr>time_ranges = [\<lparr>start = mk_time 17 0, end_t = mk_time 2 0\<rparr>]\<rparr>)] \<and>
   schedule_ok [(0, \<lparr>time_ranges = [\<lparr>start = mk_time 17 0, end_t = mk_time 2 0\<rparr>]\<rparr>),
          (1, \<lparr>time_ranges = [\<lparr>start = mk_time 17 0, end_t = mk_time 2 0\<rparr>]\<rparr>),
          (2, \<lparr>time_ranges = [\<lparr>start = mk_time 17 0, end_t = mk_time 2 0\<rparr>]\<rparr>)]"
proof -
  have a: "parse_restaurant_hours ''Mon-Wed 5 pm - 2 am'' =
     Inr [(0, \<lparr>time_ranges = [\<lparr>start = mk_time 17 0, end_t = mk_time 2 0\<rparr>]\<rparr>),
          (1, \<lparr>time_ranges = [\<lparr>start = mk_time 17 0, end_t = mk_time 2 0\<rparr>]\<rparr>),
          (2, \<lparr>time_ranges = [\<lparr>start = mk_time 17 0, end_t = mk_time 2 0\<rparr>]\<rparr>)]"
    by code_simp
  from parse_restaurant_hours_invariant [OF a] a show ?thesis by blast
qed

section \<open>The two-tier split of a period\<close>

lemma parse_time_string_error:
  "parse_time_string s = Inl e \<Longrightarrow> \<exists>m. e = ValueError m"
  by (auto simp: parse_time_string_def Let_def split: if_splits option.splits)

lemma parse_time_range_error:
  "parse_time_range s = Inl e \<Longrightarrow> \<exists>m. e = ValueError m"
  by (auto simp: parse_time_range_def unpack_error_def
        split: if_splits list.splits sum.splits dest: parse_time_string_error)

lemma days_of_part_error:
  "days_of_part p = Inl e \<Longrightarrow> \<exists>m. e = ValueError m"
  by (auto simp: days_of_part_def Let_def unpack_error_def
        split: if_splits list.splits option.splits)

lemma day_loop_error:
  "day_loop ps acc = Inl e \<Longrightarrow> \<exists>m. e = ValueError m"
  by (induction ps arbitrary: acc) (auto split: sum.splits dest: days_of_part_error)

lemma parse_day_range_error:
  "parse_day_range s = Inl e \<Longrightarrow> \<exists>m. e = ValueError m"
  by (auto simp: parse_day_range_def split: sum.splits dest: day_loop_error)

lemma parse_days_and_times_error:
  "parse_days_and_times a b = Inl e \<Longrightarrow> \<exists>m. e = ValueError m"
  by (auto simp: parse_days_and_times_def split: sum.splits
        dest: parse_day_range_error parse_time_range_error)

lemma primary_split_error:
  "primary_split p = Inl e \<Longrightarrow> \<exists>m. e = ValueError m"
  by (auto simp: primary_split_def Let_def dest: parse_days_and_times_error)

text \<open>
  C2 (as the code has it). A period with fewer than four space-delimited parts (from the
  right, at most three splits) fails at once with "Cannot parse time period", without the
  regex fallback. A period with four parts whose primary split fails is parsed by the
  fallback split, and fails only if the fallback fails; one whose primary split succeeds
  returns the primary result.
\<close>

theorem parse_period_two_tier:
  "(length (rsplit CHR '' '' 3 p) < 4 \<longrightarrow>
      parse_period p = Inl (ValueError (''Cannot parse time period: '' @ p))) \<and>
   (4 \<le> length (rsplit CHR '' '' 3 p) \<and> primary_split p = Inl e \<longrightarrow>
      parse_period p = fallback_split p) \<and>
   (4 \<le> length (rsplit CHR '' '' 3 p) \<and> primary_split p = Inr r \<longrightarrow>
      parse_period p = Inr r)"
proof (intro conjI impI)
  assume "length (rsplit CHR '' '' 3 p) < 4"
  then show "parse_period p = Inl (ValueError (''Cannot parse time period: '' @ p))"
    by (simp add: parse_period_def)
next
  assume a: "4 \<le> length (rsplit CHR '' '' 3 p) \<and> primary_split p = Inl e"
  then obtain m where "e = ValueError m"
    using primary_split_error by blast
  with a show "parse_period p = fallback_split p"
    by (simp add: parse_period_def)
next
  assume "4 \<le> length (rsplit CHR '' '' 3 p) \<and> primary_split p = Inr r"
  then show "parse_period p = Inr r"
    by (simp add: parse_period_def)
qed

theorem parse_period_two_tier_witness:
  "length (rsplit CHR '' '' 3 ''Mon-Fri 11am-10pm'') < 4 \<and>
   parse_period ''Mon-Fri 11am-10pm'' =
     Inl (ValueError (''Cannot parse time period: '' @ ''Mon-Fri 11am-10pm'')) \<and>
   4 \<le> length (rsplit CHR '' '' 3 ''Mon-Sun 11:00 am - 10 pm'') \<and>
   primary_split ''Mon-Sun 11:00 am - 10 pm'' = Inl (ValueError ''Unknown day in range: mon-sun 11:00 am'') \<and>
   parse_period ''Mon-Sun 11:00 am - 10 pm'' = fallback_split ''Mon-Sun 11:00 am - 10 pm'' \<and>
   4 \<le> length (rsplit CHR '' '' 3 ''Mon-Fri 11am - 10pm'') \<and>
   primary_split ''Mon-Fri 11am - 10pm'' =
     Inr ([0, 1, 2, 3, 4], \<lparr>start = mk_time 11 0, end_t = mk_time 22 0\<rparr>) \<and>
   parse_period ''Mon-Fri 11am - 10pm'' =
     Inr ([0, 1, 2, 3, 4], \<lparr>start = mk_time 11 0, end_t = mk_time 22 0\<rparr>)"
proof -
  have a: "length (rsplit CHR '' '' 3 ''Mon-Fri 11am-10pm'') < 4"
    by code_simp
  have b: "4 \<le> length (rsplit CHR '' '' 3 ''Mon-Sun 11:00 am - 10 pm'')"
    by code_simp
  have c: "primary_split ''Mon-Sun 11:00 am - 10 pm'' = Inl (ValueError ''Unknown day in range: mon-sun 11:00 am'')"
    by code_simp
  have d: "4 \<le> length (rsplit CHR '' '' 3 ''Mon-Fri 11am - 10pm'')"
    by code_simp
  have e: "primary_split ''Mon-Fri 11am - 10pm'' =
     Inr ([0, 1, 2, 3, 4], \<lparr>start = mk_time 11 0, end_t = mk_time 22 0\<rparr>)"
    by code_simp
  from a parse_period_two_tier [of "''Mon-Fri 11am-10pm''"]
  have f: "parse_period ''Mon-Fri 11am-10pm'' =
     Inl (ValueError (''Cannot parse time period: '' @ ''Mon-Fri 11am-10pm''))"
    by blast
  from b c parse_period_two_tier [of "''Mon-Sun 11:00 am - 10 pm''" "ValueError ''Unknown day in range: mon-sun 11:00 am''"]
  have g: "parse_period ''Mon-Sun 11:00 am - 10 pm'' = fallback_split ''Mon-Sun 11:00 am - 10 pm''"
    by blast
  from d e parse_period_two_tier [of "''Mon-Fri 11am - 10pm''" _
      "([0, 1, 2, 3, 4], \<lparr>start = mk_time 11 0, end_t = mk_time 22 0\<rparr>)"]
  have h: "parse_period ''Mon-Fri 11am - 10pm'' =
     Inr ([0, 1, 2, 3, 4], \<lparr>start = mk_time 11 0, end_t = mk_time 22 0\<rparr>)"
    by blast
  from a b c d e f g h show ?thesis by blast
qed

theorem short_period_fails_without_fallback:
  "parse_restaurant_hours ''Mon-Fri 11am-10pm'' =
     Inl (ValueError ''Cannot parse time period: Mon-Fri 11am-10pm'') \<and>
   fallback_split ''Mon-Fri 11am-10pm'' =
     Inr ([0, 1, 2, 3, 4], \<lparr>start = mk_time 11 0, end_t = mk_time 22 0\<rparr>)"
  by code_simp

section \<open>The time-of-day parser\<close>

lemma not_digit_chars [simp]:
  "\<not> is_digit CHR '':''" "\<not> is_digit CHR ''a''" "\<not> is_digit CHR ''p''"
  by (simp_all add: is_digit_def)

lemma not_space_chars [simp]:
  "\<not> is_space CHR '':''" "\<not> is_space CHR ''a''" "\<not> is_space CHR ''p''"
  by (simp_all add: is_space_def)

lemma space_not_digit: "is_space c \<Longrightarrow> \<not> is_digit c"
  by (auto simp: is_space_def is_digit_def)

lemma space_not_colon: "is_space c \<Longrightarrow> c \<noteq> CHR '':''"
  by auto

lemma takeWhile_take_prefix:
  "g = takeWhile P (take n s) \<Longrightarrow> s = g @ drop (length g) s"
proof -
  assume g: "g = takeWhile P (take n s)"
  have "g = take (length g) (take n s)"
    unfolding g by (rule takeWhile_eq_take)
  moreover have "length g \<le> n"
    unfolding g using length_takeWhile_le [of P "take n s"] by simp
  ultimately have "g = take (length g) s"
    by (simp add: min_def)
  then show ?thesis
    by (metis append_take_drop_id)
qed

lemma match_imp_prefix:
  assumes "time_pattern_match False s = Some (g1, g2, g3)"
  shows "time_pattern_prefix s g1 g2 g3"
proof -
  define h where "h = takeWhile is_digit (take 2 s)"
  define r1 where "r1 = drop (length h) s"
  define gr where "gr = (case r1 of
                          c # a # b # r \<Rightarrow>
                            if c = CHR '':'' \<and> is_digit a \<and> is_digit b then (Some [a, b], r)
                            else (None, r1)
                        | _ \<Rightarrow> (None, r1))"
  define r3 where "r3 = dropWhile is_space (snd gr)"
  from assms have hne: "h \<noteq> []" and g1: "g1 = h" and g2: "g2 = fst gr"
    and g3: "g3 = take 2 r3" and ap: "g3 \<in> {''am'', ''pm''}"
    unfolding time_pattern_match_def h_def r1_def gr_def r3_def Let_def
    by (auto split: if_splits prod.splits)
  have s: "s = h @ r1"
    unfolding r1_def using takeWhile_take_prefix [OF h_def] .
  have hd: "list_all is_digit h" "length h \<le> 2"
    unfolding h_def list_all_iff
    using set_takeWhileD [of _ is_digit "take 2 s"] length_takeWhile_le [of is_digit "take 2 s"]
    by auto
  have r1: "r1 = (case fst gr of None \<Rightarrow> [] | Some d \<Rightarrow> CHR '':'' # d) @ snd gr"
    and g2ok: "(case fst gr of None \<Rightarrow> True | Some d \<Rightarrow> length d = 2 \<and> list_all is_digit d)"
    unfolding gr_def by (auto split: list.splits)
  have r2: "snd gr = takeWhile is_space (snd gr) @ r3"
    unfolding r3_def by simp
  have ws: "list_all is_space (takeWhile is_space (snd gr))"
    unfolding list_all_iff using set_takeWhileD by fastforce
  from g3 ap have r3: "r3 = g3 @ drop 2 r3"
    by (metis append_take_drop_id)
  have "s = g1 @ (case g2 of None \<Rightarrow> [] | Some d \<Rightarrow> CHR '':'' # d) @
            takeWhile is_space (snd gr) @ g3 @ drop 2 r3"
    using s r1 r2 r3 g1 g2 by metis
  with hne hd g1 g2 g2ok ws ap show ?thesis
    unfolding time_pattern_prefix_def by blast
qed

lemma digits_prefix:
  assumes "g1 \<noteq> []" "length g1 \<le> 2" "list_all is_digit g1" "t \<noteq> []" "\<not> is_digit (hd t)"
  shows "takeWhile is_digit (take 2 (g1 @ t)) = g1"
proof (cases g1)
  case Nil
  with assms show ?thesis by simp
next
  case (Cons a as)
  show ?thesis
  proof (cases as)
    case Nil
    with Cons assms show ?thesis
      by (cases t) (auto simp: numeral_2_eq_2)
  next
    case (Cons b bs)
    with \<open>g1 = a # as\<close> assms have "bs = []" by simp
    with Cons \<open>g1 = a # as\<close> assms show ?thesis
      by (auto simp: numeral_2_eq_2)
  qed
qed

lemma prefix_imp_match:
  assumes "time_pattern_prefix s g1 g2 g3"
  shows "time_pattern_match False s = Some (g1, g2, g3)"
proof -
  from assms obtain ws rest where
    s: "s = g1 @ (case g2 of None \<Rightarrow> [] | Some d \<Rightarrow> CHR '':'' # d) @ ws @ g3 @ rest"
    and g1: "g1 \<noteq> []" "length g1 \<le> 2" "list_all is_digit g1"
    and g2: "(case g2 of None \<Rightarrow> True | Some d \<Rightarrow> length d = 2 \<and> list_all is_digit d)"
    and ws: "list_all is_space ws" and g3: "g3 \<in> {''am'', ''pm''}"
    unfolding time_pattern_prefix_def by blast
  define u where "u = ws @ g3 @ rest"
  define t where "t = (case g2 of None \<Rightarrow> [] | Some d \<Rightarrow> CHR '':'' # d) @ u"
  from g3 have g3hd: "g3 \<noteq> []" "\<not> is_digit (hd g3)" "\<not> is_space (hd g3)" "hd g3 \<noteq> CHR '':''"
    by auto
  have une: "u \<noteq> []" using g3hd by (simp add: u_def)
  have uhd: "\<not> is_digit (hd u)" "hd u \<noteq> CHR '':''"
    using ws g3hd space_not_digit space_not_colon
    by (cases ws; auto simp: u_def)+
  have tne: "t \<noteq> []" using une by (simp add: t_def)
  have thd: "\<not> is_digit (hd t)"
    using uhd by (cases g2) (auto simp: t_def)
  have st: "s = g1 @ t" using s by (simp add: t_def u_def)
  have h: "takeWhile is_digit (take 2 s) = g1"
    unfolding st using digits_prefix [OF g1 tne thd] .
  have r1: "drop (length g1) s = t" by (simp add: st)
  have gr: "(case t of
               c # a # b # r \<Rightarrow>
                 if c = CHR '':'' \<and> is_digit a \<and> is_digit b then (Some [a, b], r)
                 else (None, t)
             | _ \<Rightarrow> (None, t)) = (g2, u)"
  proof (cases g2)
    case None
    then have "t = u" by (simp add: t_def)
    with None uhd(2) une show ?thesis
      by (cases u) (auto split: list.splits)
  next
    case (Some d)
    with g2 obtain a b where "d = [a, b]" "is_digit a" "is_digit b"
      by (cases d; cases "tl d") auto
    with Some show ?thesis by (simp add: t_def)
  qed
  have dw: "dropWhile is_space u = g3 @ rest"
  proof -
    have "dropWhile is_space u = dropWhile is_space (g3 @ rest)"
      unfolding u_def using ws by (simp add: dropWhile_append2 list_all_iff)
    also have "\<dots> = g3 @ rest" using g3hd by (cases g3) auto
    finally show ?thesis .
  qed
  from g3 have t2: "take 2 (g3 @ rest) = g3" by auto
  show ?thesis
    unfolding time_pattern_match_def Let_def h r1 gr
    using g1 g3 dw t2 by simp
qed

lemma match_iff_prefix:
  "time_pattern_match False s = Some (g1, g2, g3) \<longleftrightarrow> time_pattern_prefix s g1 g2 g3"
  using match_imp_prefix prefix_imp_match by blast


lemma special_matches:
  "time_pattern_match False ''12 am'' = Some (''12'', None, ''am'')"
  "time_pattern_match False ''12:00 am'' = Some (''12'', Some ''00'', ''am'')"
  "time_pattern_match False ''12 pm'' = Some (''12'', None, ''pm'')"
  "time_pattern_match False ''12:00 pm'' = Some (''12'', Some ''00'', ''pm'')"
  by code_simp+

lemma special_values:
  "to_24_hour (int_of_digits ''12'') ''am'' = 0" "to_24_hour (int_of_digits ''12'') ''pm'' = 12"
  "minute_of None = 0" "minute_of (Some ''00'') = 0"
  by (simp_all add: to_24_hour_def minute_of_def int_of_digits_def)

lemma parse_time_string_uniform:
  "parse_time_string s =
     (case time_pattern_match False (lower (strip s)) of
        None \<Rightarrow> Inl (ValueError (''Cannot parse time string: '' @ lower (strip s)))
      | Some (g1, g2, g3) \<Rightarrow>
          if to_24_hour (int_of_digits g1) g3 \<le> 23 \<and> minute_of g2 \<le> 59
          then Inr (mk_time (to_24_hour (int_of_digits g1) g3) (minute_of g2))
          else Inl (ValueError (''Invalid time: '' @ lower (strip s))))"
proof -
  consider "lower (strip s) \<in> {''12 am'', ''12:00 am''}"
    | "lower (strip s) \<in> {''12 pm'', ''12:00 pm''}"
    | "lower (strip s) \<notin> {''12 am'', ''12:00 am''}" "lower (strip s) \<notin> {''12 pm'', ''12:00 pm''}"
    by blast
  then show ?thesis
  proof cases
    case 1
    then have p: "parse_time_string s = Inr (mk_time 0 0)"
      by (simp add: parse_time_string_def Let_def)
    from 1 show ?thesis
      unfolding p by (auto simp: special_matches special_values)
  next
    case 2
    then have p: "parse_time_string s = Inr (mk_time 12 0)"
      by (auto simp: parse_time_string_def Let_def)
    from 2 show ?thesis
      unfolding p by (auto simp: special_matches special_values)
  next
    case 3
    then show ?thesis
      by (simp add: parse_time_string_def Let_def to_24_hour_def minute_of_def
            split: option.splits prod.splits)
  qed
qed

text \<open>
  C4 (as the code has it). \<open>parse_time_string\<close> uses \<open>re.match\<close>, which anchors the pattern at
  the start of the text only. After trimming and lowercasing, the call returns a time exactly
  when some prefix of the text matches hour[:minute] (am|pm) and the converted hour is at most
  23 and the minute at most 59; it fails (with a \<open>ValueError\<close>) exactly when there is no such
  prefix. Characters after the am/pm suffix are ignored: "2:30 pmx" parses as 14:30.
\<close>

theorem parse_time_string_prefix_spec:
  "(parse_time_string s = Inr t \<longleftrightarrow>
      (\<exists>g1 g2 g3. time_pattern_prefix (lower (strip s)) g1 g2 g3 \<and>
         to_24_hour (int_of_digits g1) g3 \<le> 23 \<and> minute_of g2 \<le> 59 \<and>
         t = mk_time (to_24_hour (int_of_digits g1) g3) (minute_of g2))) \<and>
   ((\<exists>m. parse_time_string s = Inl (ValueError m)) \<longleftrightarrow>
      \<not> (\<exists>g1 g2 g3. time_pattern_prefix (lower (strip s)) g1 g2 g3 \<and>
         to_24_hour (int_of_digits g1) g3 \<le> 23 \<and> minute_of g2 \<le> 59)) \<and>
   (\<forall>e. parse_time_string s = Inl e \<longrightarrow> (\<exists>m. e = ValueError m)) \<and>
   parse_time_string ''2:30 pmx'' = Inr (mk_time 14 30)"
proof (intro conjI)
  show "parse_time_string s = Inr t \<longleftrightarrow>
      (\<exists>g1 g2 g3. time_pattern_prefix (lower (strip s)) g1 g2 g3 \<and>
         to_24_hour (int_of_digits g1) g3 \<le> 23 \<and> minute_of g2 \<le> 59 \<and>
         t = mk_time (to_24_hour (int_of_digits g1) g3) (minute_of g2))"
    unfolding parse_time_string_uniform match_iff_prefix [symmetric]
    by (auto split: option.splits)
  show "(\<exists>m. parse_time_string s = Inl (ValueError m)) \<longleftrightarrow>
      \<not> (\<exists>g1 g2 g3. time_pattern_prefix (lower (strip s)) g1 g2 g3 \<and>
         to_24_hour (int_of_digits g1) g3 \<le> 23 \<and> minute_of g2 \<le> 59)"
    unfolding parse_time_string_uniform match_iff_prefix [symmetric]
    by (auto split: option.splits)
  show "\<forall>e. parse_time_string s = Inl e \<longrightarrow> (\<exists>m. e = ValueError m)"
    unfolding parse_time_string_uniform
    by (auto split: option.splits if_splits)
  show "parse_time_string ''2:30 pmx'' = Inr (mk_time 14 30)"
    by code_simp
qed

theorem parse_time_string_prefix_spec_witness:
  "parse_time_string '' 2:30 PM '' = Inr (mk_time 14 30) \<and>
   (\<exists>g1 g2 g3. time_pattern_prefix (lower (strip '' 2:30 PM '')) g1 g2 g3 \<and>
      to_24_hour (int_of_digits g1) g3 \<le> 23 \<and> minute_of g2 \<le> 59 \<and>
      mk_time 14 30 = mk_time (to_24_hour (int_of_digits g1) g3) (minute_of g2)) \<and>
   parse_time_string ''invalid'' = Inl (ValueError ''Cannot parse time string: invalid'') \<and>
   \<not> (\<exists>g1 g2 g3. time_pattern_prefix (lower (strip ''invalid'')) g1 g2 g3 \<and>
      to_24_hour (int_of_digits g1) g3 \<le> 23 \<and> minute_of g2 \<le> 59)"
proof -
  have a: "parse_time_string '' 2:30 PM '' = Inr (mk_time 14 30)"
    by code_simp
  have b: "parse_time_string ''invalid'' = Inl (ValueError ''Cannot parse time string: invalid'')"
    by code_simp
  from a parse_time_string_prefix_spec [of "'' 2:30 PM ''" "mk_time 14 30"]
  have c: "\<exists>g1 g2 g3. time_pattern_prefix (lower (strip '' 2:30 PM '')) g1 g2 g3 \<and>
      to_24_hour (int_of_digits g1) g3 \<le> 23 \<and> minute_of g2 \<le> 59 \<and>
      mk_time 14 30 = mk_time (to_24_hour (int_of_digits g1) g3) (minute_of g2)"
    by blast
  from b parse_time_string_prefix_spec [of "''invalid''"]
  have d: "\<not> (\<exists>g1 g2 g3. time_pattern_prefix (lower (strip ''invalid'')) g1 g2 g3 \<and>
      to_24_hour (int_of_digits g1) g3 \<le> 23 \<and> minute_of g2 \<le> 59)"
    by blast
  from a b c d show ?thesis by blast
qed

theorem trailing_characters_are_accepted:
  "parse_time_string ''2:30 pmx'' = Inr (mk_time 14 30)"
  by code_simp

section \<open>The CSV record parser\<close>

lemma parse_period_error:
  "parse_period p = Inl e \<Longrightarrow> \<exists>m. e = ValueError m"
  unfolding parse_period_def fallback_split_def
  by (auto split: if_splits sum.splits py_error.splits option.splits
        dest: parse_days_and_times_error primary_split_error)

lemma hours_loop_error:
  "hours_loop ps sched = Inl e \<Longrightarrow> \<exists>m. e = ValueError m"
proof (induction ps arbitrary: sched)
  case Nil
  then show ?case by simp
next
  case (Cons p ps)
  then show ?case
    by (auto simp: Let_def split: if_splits sum.splits dest: parse_period_error)
qed

lemma parse_restaurant_hours_error:
  "parse_restaurant_hours s = Inl e \<Longrightarrow> \<exists>m. e = ValueError m"
  unfolding parse_restaurant_hours_def by (rule hours_loop_error)

lemma map_filter_Cons_None:
  "f x = None \<Longrightarrow> List.map_filter f (x # xs) = List.map_filter f xs"
  by (simp add: List.map_filter_def)

lemma map_filter_Cons_Some:
  "f x = Some y \<Longrightarrow> List.map_filter f (x # xs) = y # List.map_filter f xs"
  by (simp add: List.map_filter_def)

lemma map_filter_Nil: "List.map_filter f [] = []"
  by (simp add: List.map_filter_def)

lemma rows_loop_spec:
  "rows_loop rows err acc out =
     ((case err of None \<Rightarrow> Inr (acc @ List.map_filter restaurant_of_row rows) | Some e \<Rightarrow> Inl e),
      out @ List.map_filter warning_of_row rows)"
proof (induction rows arbitrary: acc out)
  case Nil
  show ?case by (cases err) (simp_all add: map_filter_Nil)
next
  case (Cons row rows)
  show ?case
  proof (cases "\<exists>nm hours. row = [nm, hours]")
    case False
    then have n: "restaurant_of_row row = None" "warning_of_row row = None"
      by (auto simp: restaurant_of_row_def warning_of_row_def split: list.splits)
    from False have "rows_loop (row # rows) err acc out = rows_loop rows err acc out"
      by (auto split: list.splits)
    with n Cons.IH show ?thesis
      by (cases err) (simp_all add: map_filter_Cons_None)
  next
    case True
    then obtain nm hours where row: "row = [nm, hours]" by blast
    show ?thesis
    proof (cases "parse_restaurant_hours hours")
      case (Inr sched)
      with row have r: "restaurant_of_row row = Some \<lparr>name = nm, schedule = sched\<rparr>"
        and w: "warning_of_row row = None"
        by (simp_all add: restaurant_of_row_def warning_of_row_def)
      from row Inr have "rows_loop (row # rows) err acc out =
          rows_loop rows err (acc @ [\<lparr>name = nm, schedule = sched\<rparr>]) out"
        by simp
      with r w Cons.IH show ?thesis
        by (cases err) (simp_all add: map_filter_Cons_None map_filter_Cons_Some)
    next
      case (Inl e)
      then obtain m where e: "e = ValueError m"
        using parse_restaurant_hours_error by blast
      with Inl row have r: "restaurant_of_row row = None"
        and w: "warning_of_row row =
                  Some (''Warning: Could not parse hours for '' @ nm @ '': '' @ m)"
        by (simp_all add: restaurant_of_row_def warning_of_row_def)
      from row Inl e have "rows_loop (row # rows) err acc out =
          rows_loop rows err acc
            (out @ [''Warning: Could not parse hours for '' @ nm @ '': '' @ m])"
        by simp
      with r w Cons.IH show ?thesis
        by (cases err) (simp_all add: map_filter_Cons_None map_filter_Cons_Some)
    qed
  qed
qed





text \<open>
  C6 (as the code has it). When the csv reader tokenises the text without error,
  \<open>parse_restaurants_from_csv\<close> does not fail: the first record is discarded, every data
  record that does not have exactly two fields is dropped silently, every two-field record
  whose hours text fails the grammar is skipped with a warning, and the result is the list of
  the successfully parsed restaurants in input order; an empty text and a header-only text
  give the empty list. When the reader raises its own error (which is not a \<open>ValueError\<close>
  and is raised outside the \<open>try\<close> block), the call fails with that error.
\<close>

theorem parse_restaurants_from_csv_spec:
  "(snd (csv_reader c) = None \<longrightarrow>
      parse_restaurants_from_csv c =
        (Inr (List.map_filter restaurant_of_row (tl (fst (csv_reader c)))),
         List.map_filter warning_of_row (tl (fst (csv_reader c))))) \<and>
   (snd (csv_reader c) = Some e \<longrightarrow> fst (parse_restaurants_from_csv c) = Inl e) \<and>
   (length row \<noteq> 2 \<longrightarrow> restaurant_of_row row = None \<and> warning_of_row row = None) \<and>
   parse_restaurants_from_csv [] = (Inr [], []) \<and>
   parse_restaurants_from_csv ''Name,Hours'' = (Inr [], [])"
proof (intro conjI impI)
  assume n: "snd (csv_reader c) = None"
  obtain rows where r: "csv_reader c = (rows, None)"
    using n by (cases "csv_reader c") auto
  show "parse_restaurants_from_csv c =
        (Inr (List.map_filter restaurant_of_row (tl (fst (csv_reader c)))),
         List.map_filter warning_of_row (tl (fst (csv_reader c))))"
    unfolding parse_restaurants_from_csv_def r
    by (cases rows) (simp_all add: rows_loop_spec map_filter_Nil)
next
  assume n: "snd (csv_reader c) = Some e"
  obtain rows where r: "csv_reader c = (rows, Some e)"
    using n by (cases "csv_reader c") auto
  show "fst (parse_restaurants_from_csv c) = Inl e"
    unfolding parse_restaurants_from_csv_def r
    by (cases rows) (simp_all add: rows_loop_spec)
next
  assume "length row \<noteq> 2"
  then show "restaurant_of_row row = None"
    by (cases row; cases "tl row"; cases "tl (tl row)") (auto simp: restaurant_of_row_def)
next
  assume "length row \<noteq> 2"
  then show "warning_of_row row = None"
    by (cases row; cases "tl row"; cases "tl (tl row)") (auto simp: warning_of_row_def)
next
  show "parse_restaurants_from_csv [] = (Inr [], [])" by code_simp
  show "parse_restaurants_from_csv ''Name,Hours'' = (Inr [], [])" by code_simp
qed

theorem parse_restaurants_from_csv_spec_witness:
  "snd (csv_reader (''n,h'' @ [LF] @ ''A,Mon 1 am - 2 am'' @ [LF] @ ''B,bad'' @ [LF] @ ''x'' @ [LF]
         @ ''C,Tue 1 am - 2 am'')) = None \<and>
   parse_restaurants_from_csv (''n,h'' @ [LF] @ ''A,Mon 1 am - 2 am'' @ [LF] @ ''B,bad'' @ [LF]
         @ ''x'' @ [LF] @ ''C,Tue 1 am - 2 am'') =
     (Inr [\<lparr>name = ''A'', schedule =
              [(0, \<lparr>time_ranges = [\<lparr>start = mk_time 1 0, end_t = mk_time 2 0\<rparr>]\<rparr>)]\<rparr>,
           \<lparr>name = ''C'', schedule =
              [(1, \<lparr>time_ranges = [\<lparr>start = mk_time 1 0, end_t = mk_time 2 0\<rparr>]\<rparr>)]\<rparr>],
      [''Warning: Could not parse hours for B: Cannot parse time period: bad'']) \<and>
   snd (csv_reader (''h'' @ [LF] @ ''a'' @ [CR] @ ''b'' @ [LF])) =
     Some (CsvError (''new-line character seen in unquoted field - do you need to open the file with newline=''
             @ [CHR 0x27, CHR 0x27] @ ''?'')) \<and>
   fst (parse_restaurants_from_csv (''h'' @ [LF] @ ''a'' @ [CR] @ ''b'' @ [LF])) =
     Inl (CsvError (''new-line character seen in unquoted field - do you need to open the file with newline=''
             @ [CHR 0x27, CHR 0x27] @ ''?'')) \<and>
   length [''x''] \<noteq> 2 \<and> restaurant_of_row [''x''] = None"
proof -
  have a: "snd (csv_reader (''n,h'' @ [LF] @ ''A,Mon 1 am - 2 am'' @ [LF] @ ''B,bad'' @ [LF] @ ''x'' @ [LF]
         @ ''C,Tue 1 am - 2 am'')) = None"
    by code_simp
  have b: "(List.map_filter restaurant_of_row (tl (fst (csv_reader (''n,h'' @ [LF] @ ''A,Mon 1 am - 2 am'' @ [LF] @ ''B,bad'' @ [LF] @ ''x'' @ [LF]
         @ ''C,Tue 1 am - 2 am'')))),
       List.map_filter warning_of_row (tl (fst (csv_reader (''n,h'' @ [LF] @ ''A,Mon 1 am - 2 am'' @ [LF] @ ''B,bad'' @ [LF] @ ''x'' @ [LF]
         @ ''C,Tue 1 am - 2 am''))))) =
     ([\<lparr>name = ''A'', schedule =
              [(0, \<lparr>time_ranges = [\<lparr>start = mk_time 1 0, end_t = mk_time 2 0\<rparr>]\<rparr>)]\<rparr>,
           \<lparr>name = ''C'', schedule =
              [(1, \<lparr>time_ranges = [\<lparr>start = mk_time 1 0, end_t = mk_time 2 0\<rparr>]\<rparr>)]\<rparr>],
      [''Warning: Could not parse hours for B: Cannot parse time period: bad''])"
    by code_simp
  have c: "snd (csv_reader (''h'' @ [LF] @ ''a'' @ [CR] @ ''b'' @ [LF])) =
     Some (CsvError (''new-line character seen in unquoted field - do you need to open the file with newline=''
             @ [CHR 0x27, CHR 0x27] @ ''?''))"
    by code_simp
  have d: "length [''x''] \<noteq> 2" by simp
  from a b parse_restaurants_from_csv_spec [of "''n,h'' @ [LF] @ ''A,Mon 1 am - 2 am'' @ [LF] @ ''B,bad'' @ [LF]
         @ ''x'' @ [LF] @ ''C,Tue 1 am - 2 am''"]
  have e: "parse_restaurants_from_csv (''n,h'' @ [LF] @ ''A,Mon 1 am - 2 am'' @ [LF] @ ''B,bad'' @ [LF]
         @ ''x'' @ [LF] @ ''C,Tue 1 am - 2 am'') =
     (Inr [\<lparr>name = ''A'', schedule =
              [(0, \<lparr>time_ranges = [\<lparr>start = mk_time 1 0, end_t = mk_time 2 0\<rparr>]\<rparr>)]\<rparr>,
           \<lparr>name = ''C'', schedule =
              [(1, \<lparr>time_ranges = [\<lparr>start = mk_time 1 0, end_t = mk_time 2 0\<rparr>]\<rparr>)]\<rparr>],
      [''Warning: Could not parse hours for B: Cannot parse time period: bad''])"
    by simp
  from c parse_restaurants_from_csv_spec [of "''h'' @ [LF] @ ''a'' @ [CR] @ ''b'' @ [LF]"]
  have g: "fst (parse_restaurants_from_csv (''h'' @ [LF] @ ''a'' @ [CR] @ ''b'' @ [LF])) =
     Inl (CsvError (''new-line character seen in unquoted field - do you need to open the file with newline=''
             @ [CHR 0x27, CHR 0x27] @ ''?''))"
    by blast
  from d parse_restaurants_from_csv_spec [of _ _ "[''x'']"]
  have f: "restaurant_of_row [''x''] = None" by blast
  from a c d e f g show ?thesis by blast
qed

theorem csv_reader_error_aborts_load:
  "fst (parse_restaurants_from_csv (''h'' @ [LF] @ ''a'' @ [CR] @ ''b'' @ [LF])) =
     Inl (CsvError (''new-line character seen in unquoted field - do you need to open the file with newline=''
             @ [CHR 0x27, CHR 0x27] @ ''?''))"
  by code_simp

section \<open>The query engine\<close>

lemma is_open_at_datetime_iff:
  "is_open_at_datetime r dt = open_at r (weekday dt) (time_of dt)"
  by (cases "map_of (schedule r) (weekday dt)")
     (simp_all add: is_open_at_datetime_def open_at_def is_open_at_time_def list_ex_iff)

text \<open>
  C7. \<open>find_open_restaurants\<close> fails with the not-loaded error on a service that is not
  loaded (whatever the query text, and in particular on a fresh service). On a loaded service
  and a query instant, it returns the names of exactly the loaded restaurants that are open at
  that weekday and time (with their multiplicities), sorted ascending. In every case it leaves
  the service as it was.
\<close>

theorem find_open_restaurants_spec:
  "(\<not> loaded svc \<longrightarrow> find_open_restaurants dp svc q = (Inl not_loaded_error, svc)) \<and>
   find_open_restaurants dp init_service q = (Inl not_loaded_error, init_service) \<and>
   (loaded svc \<and> dp q = Some dt \<longrightarrow>
      (\<exists>names. find_open_restaurants dp svc q = (Inr names, svc) \<and> sorted names \<and>
         mset names =
           mset (map name (filter (\<lambda>r. open_at r (weekday dt) (time_of dt)) (restaurants svc))))) \<and>
   snd (find_open_restaurants dp svc q) = svc"
proof (intro conjI impI)
  assume "\<not> loaded svc"
  then show "find_open_restaurants dp svc q = (Inl not_loaded_error, svc)"
    by (simp add: find_open_restaurants_def)
next
  show "find_open_restaurants dp init_service q = (Inl not_loaded_error, init_service)"
    by (simp add: find_open_restaurants_def init_service_def)
next
  assume a: "loaded svc \<and> dp q = Some dt"
  let ?names = "sort (map name
      (filter (\<lambda>r. open_at r (weekday dt) (time_of dt)) (restaurants svc)))"
  from a have "find_open_restaurants dp svc q = (Inr ?names, svc)"
    by (simp add: find_open_restaurants_def is_open_at_datetime_iff)
  moreover have "sorted ?names" by simp
  moreover have "mset ?names =
      mset (map name (filter (\<lambda>r. open_at r (weekday dt) (time_of dt)) (restaurants svc)))"
    by simp
  ultimately show "\<exists>names. find_open_restaurants dp svc q = (Inr names, svc) \<and> sorted names \<and>
         mset names =
           mset (map name (filter (\<lambda>r. open_at r (weekday dt) (time_of dt)) (restaurants svc)))"
    by blast
next
  show "snd (find_open_restaurants dp svc q) = svc"
    by (simp add: find_open_restaurants_def split: option.splits)
qed

theorem find_open_restaurants_spec_witness:
  "loaded (snd (load_restaurants_from_content init_service (''n,h'' @ [LF] @ ''B,Mon 1 am - 2 am'' @ [LF] @ ''A,Mon-Tue 1 am - 2 am''))) \<and>
   (\<lambda>s. Some \<lparr>weekday = 0, time_of = mk_time 1 30\<rparr>) ''Mon 1:30 am'' = Some \<lparr>weekday = 0, time_of = mk_time 1 30\<rparr> \<and>
   fst (find_open_restaurants (\<lambda>s. Some \<lparr>weekday = 0, time_of = mk_time 1 30\<rparr>)
          (snd (load_restaurants_from_content init_service (''n,h'' @ [LF] @ ''B,Mon 1 am - 2 am'' @ [LF] @ ''A,Mon-Tue 1 am - 2 am''))) ''Mon 1:30 am'') = Inr [''A'', ''B''] \<and>
   (\<exists>names. find_open_restaurants (\<lambda>s. Some \<lparr>weekday = 0, time_of = mk_time 1 30\<rparr>)
          (snd (load_restaurants_from_content init_service (''n,h'' @ [LF] @ ''B,Mon 1 am - 2 am'' @ [LF] @ ''A,Mon-Tue 1 am - 2 am''))) ''Mon 1:30 am'' =
        (Inr names, (snd (load_restaurants_from_content init_service (''n,h'' @ [LF] @ ''B,Mon 1 am - 2 am'' @ [LF] @ ''A,Mon-Tue 1 am - 2 am'')))) \<and>
      sorted names \<and>
      mset names = mset (map name (filter (\<lambda>r. open_at r (weekday \<lparr>weekday = 0, time_of = mk_time 1 30\<rparr>) (time_of \<lparr>weekday = 0, time_of = mk_time 1 30\<rparr>))
        (restaurants (snd (load_restaurants_from_content init_service (''n,h'' @ [LF] @ ''B,Mon 1 am - 2 am'' @ [LF] @ ''A,Mon-Tue 1 am - 2 am''))))))) \<and>
   \<not> loaded init_service \<and>
   find_open_restaurants (\<lambda>s. Some \<lparr>weekday = 0, time_of = mk_time 1 30\<rparr>) init_service ''Mon 1:30 am'' = (Inl not_loaded_error, init_service)"
proof -
  have a: "loaded (snd (load_restaurants_from_content init_service (''n,h'' @ [LF] @ ''B,Mon 1 am - 2 am'' @ [LF] @ ''A,Mon-Tue 1 am - 2 am'')))"
    by code_simp
  have b: "(\<lambda>s. Some \<lparr>weekday = 0, time_of = mk_time 1 30\<rparr>) ''Mon 1:30 am'' = Some \<lparr>weekday = 0, time_of = mk_time 1 30\<rparr>"
    by simp
  have c: "fst (find_open_restaurants (\<lambda>s. Some \<lparr>weekday = 0, time_of = mk_time 1 30\<rparr>)
          (snd (load_restaurants_from_content init_service (''n,h'' @ [LF] @ ''B,Mon 1 am - 2 am'' @ [LF] @ ''A,Mon-Tue 1 am - 2 am''))) ''Mon 1:30 am'') = Inr [''A'', ''B'']"
    by code_simp
  have d: "\<not> loaded init_service"
    by (simp add: init_service_def)
  from a b find_open_restaurants_spec [where svc = "(snd (load_restaurants_from_content init_service (''n,h'' @ [LF] @ ''B,Mon 1 am - 2 am'' @ [LF] @ ''A,Mon-Tue 1 am - 2 am'')))"
      and dp = "(\<lambda>s. Some \<lparr>weekday = 0, time_of = mk_time 1 30\<rparr>)" and q = "''Mon 1:30 am''" and dt = "\<lparr>weekday = 0, time_of = mk_time 1 30\<rparr>"]
  have e: "\<exists>names. find_open_restaurants (\<lambda>s. Some \<lparr>weekday = 0, time_of = mk_time 1 30\<rparr>)
          (snd (load_restaurants_from_content init_service (''n,h'' @ [LF] @ ''B,Mon 1 am - 2 am'' @ [LF] @ ''A,Mon-Tue 1 am - 2 am''))) ''Mon 1:30 am'' =
        (Inr names, (snd (load_restaurants_from_content init_service (''n,h'' @ [LF] @ ''B,Mon 1 am - 2 am'' @ [LF] @ ''A,Mon-Tue 1 am - 2 am'')))) \<and>
      sorted names \<and>
      mset names = mset (map name (filter (\<lambda>r. open_at r (weekday \<lparr>weekday = 0, time_of = mk_time 1 30\<rparr>) (time_of \<lparr>weekday = 0, time_of = mk_time 1 30\<rparr>))
        (restaurants (snd (load_restaurants_from_content init_service (''n,h'' @ [LF] @ ''B,Mon 1 am - 2 am'' @ [LF] @ ''A,Mon-Tue 1 am - 2 am''))))))"
    by blast
  from d find_open_restaurants_spec [where svc = init_service
      and dp = "(\<lambda>s. Some \<lparr>weekday = 0, time_of = mk_time 1 30\<rparr>)" and q = "''Mon 1:30 am''"]
  have f: "find_open_restaurants (\<lambda>s. Some \<lparr>weekday = 0, time_of = mk_time 1 30\<rparr>) init_service ''Mon 1:30 am'' =
      (Inl not_loaded_error, init_service)"
    by blast
  from a b c d e f show ?thesis by blast
qed

text \<open>
  C9. In \<open>get_restaurants_open_on_day\<close> the weekday check comes first: a weekday outside
  0..6 gives the invalid-weekday error also on a service that is not loaded, and the
  not-loaded error is raised exactly for a weekday in 0..6 on a service that is not loaded.
\<close>

theorem get_restaurants_open_on_day_order:
  "(\<not> (0 \<le> wd \<and> wd \<le> 6) \<longrightarrow>
      fst (get_restaurants_open_on_day svc wd) =
        Inl (ValueError ''Weekday must be between 0 (Monday) and 6 (Sunday)'')) \<and>
   (fst (get_restaurants_open_on_day svc wd) = Inl not_loaded_error \<longleftrightarrow>
      0 \<le> wd \<and> wd \<le> 6 \<and> \<not> loaded svc) \<and>
   fst (get_restaurants_open_on_day init_service 7) =
     Inl (ValueError ''Weekday must be between 0 (Monday) and 6 (Sunday)'') \<and>
   fst (get_restaurants_open_on_day init_service (- 1)) =
     Inl (ValueError ''Weekday must be between 0 (Monday) and 6 (Sunday)'') \<and>
   fst (get_restaurants_open_on_day init_service 3) = Inl not_loaded_error"
  by (auto simp: get_restaurants_open_on_day_def not_loaded_error_def init_service_def)

theorem get_restaurants_open_on_day_order_witness:
  "\<not> (0 \<le> (9::int) \<and> (9::int) \<le> 6) \<and>
   fst (get_restaurants_open_on_day init_service 9) =
     Inl (ValueError ''Weekday must be between 0 (Monday) and 6 (Sunday)'') \<and>
   (0 \<le> (2::int) \<and> (2::int) \<le> 6 \<and> \<not> loaded init_service) \<and>
   fst (get_restaurants_open_on_day init_service 2) = Inl not_loaded_error"
proof -
  have a: "\<not> (0 \<le> (9::int) \<and> (9::int) \<le> 6)" by simp
  have b: "0 \<le> (2::int) \<and> (2::int) \<le> 6 \<and> \<not> loaded init_service"
    by (simp add: init_service_def)
  from a get_restaurants_open_on_day_order [where wd = 9 and svc = init_service]
  have c: "fst (get_restaurants_open_on_day init_service 9) =
     Inl (ValueError ''Weekday must be between 0 (Monday) and 6 (Sunday)'')"
    by blast
  from b get_restaurants_open_on_day_order [where wd = 2 and svc = init_service]
  have d: "fst (get_restaurants_open_on_day init_service 2) = Inl not_loaded_error"
    by blast
  from a b c d show ?thesis by blast
qed

text \<open>
  C8. Loading the same CSV text twice leaves the service in the state that loading it once
  leaves: the count and every query give the same result. A successful load installs exactly
  the restaurants parsed from the text, whatever the service held before.
\<close>

theorem load_twice_same_as_once:
  "snd (load_restaurants_from_content (snd (load_restaurants_from_content svc c)) c) =
     snd (load_restaurants_from_content svc c) \<and>
   fst (get_restaurant_count
          (snd (load_restaurants_from_content (snd (load_restaurants_from_content svc c)) c))) =
     fst (get_restaurant_count (snd (load_restaurants_from_content svc c))) \<and>
   fst (find_open_restaurants dp
          (snd (load_restaurants_from_content (snd (load_restaurants_from_content svc c)) c)) q) =
     fst (find_open_restaurants dp (snd (load_restaurants_from_content svc c)) q) \<and>
   (fst (parse_restaurants_from_csv c) = Inr rs \<longrightarrow>
      snd (load_restaurants_from_content svc c) = \<lparr>restaurants = rs, loaded = True\<rparr> \<and>
      restaurants
        (snd (load_restaurants_from_content (snd (load_restaurants_from_content svc c)) c)) = rs)"
proof -
  have idem: "snd (load_restaurants_from_content (snd (load_restaurants_from_content svc c)) c) =
     snd (load_restaurants_from_content svc c)"
    by (cases "fst (parse_restaurants_from_csv c)")
       (simp_all add: load_restaurants_from_content_def)
  have inst: "fst (parse_restaurants_from_csv c) = Inr rs \<Longrightarrow>
      snd (load_restaurants_from_content s c) = \<lparr>restaurants = rs, loaded = True\<rparr>" for s
    by (cases s) (simp add: load_restaurants_from_content_def)
  show ?thesis
    using idem inst [of svc] inst [of "\<lparr>restaurants = rs, loaded = True\<rparr>"] by auto
qed

theorem load_twice_same_as_once_witness:
  "fst (parse_restaurants_from_csv (''n,h'' @ [LF] @ ''B,Mon 1 am - 2 am'' @ [LF] @ ''A,Mon-Tue 1 am - 2 am'')) =
     Inr [\<lparr>name = ''B'', schedule =
          [(0, \<lparr>time_ranges = [\<lparr>start = mk_time 1 0, end_t = mk_time 2 0\<rparr>]\<rparr>)]\<rparr>,
       \<lparr>name = ''A'', schedule =
          [(0, \<lparr>time_ranges = [\<lparr>start = mk_time 1 0, end_t = mk_time 2 0\<rparr>]\<rparr>),
           (1, \<lparr>time_ranges = [\<lparr>start = mk_time 1 0, end_t = mk_time 2 0\<rparr>]\<rparr>)]\<rparr>] \<and>
   snd (load_restaurants_from_content init_service (''n,h'' @ [LF] @ ''B,Mon 1 am - 2 am'' @ [LF] @ ''A,Mon-Tue 1 am - 2 am'')) =
     \<lparr>restaurants = [\<lparr>name = ''B'', schedule =
          [(0, \<lparr>time_ranges = [\<lparr>start = mk_time 1 0, end_t = mk_time 2 0\<rparr>]\<rparr>)]\<rparr>,
       \<lparr>name = ''A'', schedule =
          [(0, \<lparr>time_ranges = [\<lparr>start = mk_time 1 0, end_t = mk_time 2 0\<rparr>]\<rparr>),
           (1, \<lparr>time_ranges = [\<lparr>start = mk_time 1 0, end_t = mk_time 2 0\<rparr>]\<rparr>)]\<rparr>], loaded = True\<rparr> \<and>
   restaurants (snd (load_restaurants_from_content
       (snd (load_restaurants_from_content init_service (''n,h'' @ [LF] @ ''B,Mon 1 am - 2 am'' @ [LF] @ ''A,Mon-Tue 1 am - 2 am'')))
       (''n,h'' @ [LF] @ ''B,Mon 1 am - 2 am'' @ [LF] @ ''A,Mon-Tue 1 am - 2 am''))) =
     [\<lparr>name = ''B'', schedule =
          [(0, \<lparr>time_ranges = [\<lparr>start = mk_time 1 0, end_t = mk_time 2 0\<rparr>]\<rparr>)]\<rparr>,
       \<lparr>name = ''A'', schedule =
          [(0, \<lparr>time_ranges = [\<lparr>start = mk_time 1 0, end_t = mk_time 2 0\<rparr>]\<rparr>),
           (1, \<lparr>time_ranges = [\<lparr>start = mk_time 1 0, end_t = mk_time 2 0\<rparr>]\<rparr>)]\<rparr>]"
proof -
  have a: "fst (parse_restaurants_from_csv (''n,h'' @ [LF] @ ''B,Mon 1 am - 2 am'' @ [LF] @ ''A,Mon-Tue 1 am - 2 am'')) =
     Inr [\<lparr>name = ''B'', schedule =
          [(0, \<lparr>time_ranges = [\<lparr>start = mk_time 1 0, end_t = mk_time 2 0\<rparr>]\<rparr>)]\<rparr>,
       \<lparr>name = ''A'', schedule =
          [(0, \<lparr>time_ranges = [\<lparr>start = mk_time 1 0, end_t = mk_time 2 0\<rparr>]\<rparr>),
           (1, \<lparr>time_ranges = [\<lparr>start = mk_time 1 0, end_t = mk_time 2 0\<rparr>]\<rparr>)]\<rparr>]"
    by code_simp
  from a load_twice_same_as_once [where svc = init_service and c = "(''n,h'' @ [LF] @ ''B,Mon 1 am - 2 am'' @ [LF] @ ''A,Mon-Tue 1 am - 2 am'')"
      and rs = "[\<lparr>name = ''B'', schedule =
          [(0, \<lparr>time_ranges = [\<lparr>start = mk_time 1 0, end_t = mk_time 2 0\<rparr>]\<rparr>)]\<rparr>,
       \<lparr>name = ''A'', schedule =
          [(0, \<lparr>time_ranges = [\<lparr>start = mk_time 1 0, end_t = mk_time 2 0\<rparr>]\<rparr>),
           (1, \<lparr>time_ranges = [\<lparr>start = mk_time 1 0, end_t = mk_time 2 0\<rparr>]\<rparr>)]\<rparr>]"]
  show ?thesis by blast
qed

end
